theory Spec2Isabelle
  imports Main
begin

section \<open>The annotation session of the image annotation tool\<close>

text \<open>
  The repository holds two variants of one React component \<open>App\<close>: \<open>src/App.js\<close>, with six
  state cells, and a second file that adds the cells \<open>undoStack\<close> and \<open>redoStack\<close>, the handlers
  \<open>handleUndo\<close> and \<open>handleRedo\<close>, and keyboard shortcuts. The component state is modelled
  as a record, the second variant's state as its extension, and every handler as a function
  from the state the handler's closure sees to the state of the next render. Handlers that
  are the same text in both files are defined once, on the extensible record.

  Pointer coordinates are JavaScript numbers; they are modelled as integers (the handlers
  only copy and subtract them). A state cell that holds \<open>null\<close> or an object is an option.
\<close>

subsection \<open>Data\<close>

text \<open>\<open>startPos\<close> is an object \<open>{x, y}\<close>; a box is \<open>{x, y, width, height, label}\<close>.\<close>

record point =
  x :: int
  y :: int

record box = point +
  width :: int
  height :: int
  label :: string

text \<open>The part of a mouse event the handlers read: \<open>e.nativeEvent.offsetX\<close> and \<open>offsetY\<close>.\<close>

record mouse_event =
  offsetX :: int
  offsetY :: int

text \<open>The part of a keyboard event \<open>handleKeyDown\<close> reads.\<close>

record key_event =
  key :: string
  ctrlKey :: bool

text \<open>
  An uploaded file: the name it has on disk, and the data URL that
  \<open>reader.readAsDataURL(file)\<close> delivers in \<open>reader.result\<close>.
\<close>

record image_file =
  file_name :: string
  file_dataURL :: string

text \<open>The state cells of \<open>src/App.js\<close>, in the order of its \<open>useState\<close> calls.\<close>

record app_state =
  imageSrc :: "string option"
  annotations :: "box list"
  currentLabel :: string
  isDrawing :: bool
  startPos :: point
  currentBox :: "box option"

text \<open>The second variant adds the two history cells.\<close>

record history_state = app_state +
  undoStack :: "box list list"
  redoStack :: "box list list"

text \<open>The initial values given to \<open>useState\<close>.\<close>

definition App_init :: app_state where
  "App_init =
     \<lparr>imageSrc = None, annotations = [], currentLabel = ''b'', isDrawing = False,
      startPos = \<lparr>x = 0, y = 0\<rparr>, currentBox = None\<rparr>"

definition App_history_init :: history_state where
  "App_history_init =
     \<lparr>imageSrc = None, annotations = [], currentLabel = ''b'', isDrawing = False,
      startPos = \<lparr>x = 0, y = 0\<rparr>, currentBox = None, undoStack = [], redoStack = []\<rparr>"

text \<open>
  JavaScript truthiness of \<open>imageSrc\<close>, as tested by \<open>!imageSrc\<close>: \<open>null\<close> and the empty
  string are falsy. (\<open>currentBox\<close> is \<open>null\<close> or an object, and every object is truthy.)
\<close>

definition truthy :: "string option \<Rightarrow> bool" where
  "truthy v = (case v of None \<Rightarrow> False | Some str \<Rightarrow> str \<noteq> [])"

subsection \<open>Handlers shared by both variants\<close>

text \<open>
  \<open>handleImageUpload\<close>: \<open>e.target.files[0]\<close> is absent when the picker was cancelled. For a
  file, the only state write is \<open>setImageSrc(reader.result)\<close> in the reader's \<open>onload\<close>; the
  model takes the read as completed.
\<close>

definition handleImageUpload :: "image_file option \<Rightarrow> 'a app_state_scheme \<Rightarrow> 'a app_state_scheme" where
  "handleImageUpload f s =
     (case f of
        None \<Rightarrow> s
      | Some fl \<Rightarrow> s\<lparr>imageSrc := Some (file_dataURL fl)\<rparr>)"

definition handleMouseDown :: "mouse_event \<Rightarrow> 'a app_state_scheme \<Rightarrow> 'a app_state_scheme" where
  "handleMouseDown e s =
     (if \<not> truthy (imageSrc s) then s
      else s\<lparr>isDrawing := True, startPos := \<lparr>x = offsetX e, y = offsetY e\<rparr>\<rparr>)"

definition handleMouseMove :: "mouse_event \<Rightarrow> 'a app_state_scheme \<Rightarrow> 'a app_state_scheme" where
  "handleMouseMove e s =
     (if \<not> isDrawing s then s
      else
        let newBox =
          \<lparr>x = x (startPos s),
           y = y (startPos s),
           width = offsetX e - x (startPos s),
           height = offsetY e - y (startPos s),
           label = currentLabel s\<rparr>
        in s\<lparr>currentBox := Some newBox\<rparr>)"

definition handleLabelChange :: "string \<Rightarrow> 'a app_state_scheme \<Rightarrow> 'a app_state_scheme" where
  "handleLabelChange v s = s\<lparr>currentLabel := v\<rparr>"

text \<open>
  The options of the label \<open>select\<close>, as (text shown, value) in the order of \<open>src/App.js\<close>.
\<close>

definition label_options :: "(string \<times> string) list" where
  "label_options =
     [(''Button'', ''b''), (''Input'', ''i''), (''Select'', ''s''), (''Text'', ''t''),
      (''Image'', ''img''), (''Link'', ''l''), (''List'', ''li''),
      (''Active Input'', ''active-i''), (''Active Select'', ''active-s'')]"

subsection \<open>Export\<close>

text \<open>
  \<open>handleDownload\<close> builds the object \<open>annotationData\<close> and offers its JSON text as a file
  named \<open>annotations.json\<close>. It calls no state setter. The object is modelled as a JSON tree
  whose object fields keep the order of the object literal.
\<close>

datatype json =
    JNumber int
  | JString string
  | JArray "json list"
  | JObject "(string \<times> json) list"

definition box_json :: "box \<Rightarrow> json" where
  "box_json b =
     JObject [(''x'', JNumber (x b)), (''y'', JNumber (y b)), (''width'', JNumber (width b)),
              (''height'', JNumber (height b)), (''label'', JString (label b))]"

definition annotationData :: "'a app_state_scheme \<Rightarrow> json" where
  "annotationData s =
     JObject [(''filename'', JString ''annotated_image.jpg''),
              (''annotations'', JArray (map box_json (annotations s)))]"

text \<open>The download: the file name set on the anchor, and the document.\<close>

definition handleDownload :: "'a app_state_scheme \<Rightarrow> string \<times> json" where
  "handleDownload s = (''annotations.json'', annotationData s)"

subsection \<open>Pointer release\<close>

text \<open>\<open>handleMouseUp\<close> of \<open>src/App.js\<close>.\<close>

definition handleMouseUp_App :: "'a app_state_scheme \<Rightarrow> 'a app_state_scheme" where
  "handleMouseUp_App s =
     (let s1 =
        (case currentBox s of
           Some b \<Rightarrow>
             if isDrawing s then s\<lparr>annotations := annotations s @ [b], currentBox := None\<rparr>
             else s
         | None \<Rightarrow> s)
      in s1\<lparr>isDrawing := False\<rparr>)"

text \<open>
  \<open>handleMouseUp\<close> of the variant with history. The updater passed to \<open>setAnnotations\<close>
  receives the current list as \<open>prev\<close> and also sets both stacks.
\<close>

definition handleMouseUp :: "history_state \<Rightarrow> history_state" where
  "handleMouseUp s =
     (let s1 =
        (case currentBox s of
           Some b \<Rightarrow>
             if isDrawing s then
               s\<lparr>annotations := annotations s @ [b],
                 undoStack := undoStack s @ [annotations s],
                 redoStack := [],
                 currentBox := None\<rparr>
             else s
         | None \<Rightarrow> s)
      in s1\<lparr>isDrawing := False\<rparr>)"

subsection \<open>History\<close>

text \<open>
  \<open>handleUndo\<close>: \<open>undoStack.pop()\<close> takes the last element of the array and leaves the rest
  in the cell; the new redo array is \<open>[annotations, ...redoStack]\<close>. \<open>last\<close> and \<open>butlast\<close>
  are applied to a non-empty list only.
\<close>

definition handleUndo :: "history_state \<Rightarrow> history_state" where
  "handleUndo s =
     (if length (undoStack s) > 0 then
        let lastState = last (undoStack s)
        in s\<lparr>redoStack := annotations s # redoStack s,
             annotations := lastState,
             undoStack := butlast (undoStack s)\<rparr>
      else s)"

text \<open>
  \<open>handleRedo\<close>: \<open>redoStack.shift()\<close> takes the first element of the array and leaves the
  rest in the cell; the new undo array is \<open>[...undoStack, annotations]\<close>.
\<close>

definition handleRedo :: "history_state \<Rightarrow> history_state" where
  "handleRedo s =
     (if length (redoStack s) > 0 then
        let nextState = hd (redoStack s)
        in s\<lparr>undoStack := undoStack s @ [annotations s],
             annotations := nextState,
             redoStack := tl (redoStack s)\<rparr>
      else s)"

text \<open>The keyboard shortcuts of the variant with history.\<close>

definition handleKeyDown :: "key_event \<Rightarrow> history_state \<Rightarrow> history_state" where
  "handleKeyDown e s =
     (if key e = ''1'' then s\<lparr>currentLabel := ''b''\<rparr>
      else if key e = ''2'' then s\<lparr>currentLabel := ''i''\<rparr>
      else if key e = ''3'' then s\<lparr>currentLabel := ''s''\<rparr>
      else if key e = ''4'' then s\<lparr>currentLabel := ''t''\<rparr>
      else if key e = ''5'' then s\<lparr>currentLabel := ''img''\<rparr>
      else if key e = ''6'' then s\<lparr>currentLabel := ''l''\<rparr>
      else if key e = ''z'' then (if ctrlKey e then handleUndo s else s)
      else if key e = ''y'' then (if ctrlKey e then handleRedo s else s)
      else s)"

subsection \<open>Gestures and sample sessions\<close>

text \<open>
  A completed drag: pointer down, the pointer moves in order, pointer up. The box such a
  drag draws from the down event \<open>d\<close> to the move event \<open>m\<close> under label \<open>l\<close> is
  \<open>drawn_box d m l\<close>.
\<close>

definition drag :: "mouse_event \<Rightarrow> mouse_event list \<Rightarrow> history_state \<Rightarrow> history_state" where
  "drag d ms s = handleMouseUp (fold handleMouseMove ms (handleMouseDown d s))"

definition drag_App ::
    "mouse_event \<Rightarrow> mouse_event list \<Rightarrow> 'a app_state_scheme \<Rightarrow> 'a app_state_scheme" where
  "drag_App d ms s = handleMouseUp_App (fold handleMouseMove ms (handleMouseDown d s))"

fun drags :: "(mouse_event \<times> mouse_event list) list \<Rightarrow> history_state \<Rightarrow> history_state" where
  "drags [] s = s"
| "drags (g # gs) s = drags gs (drag (fst g) (snd g) s)"

fun drags_App ::
    "(mouse_event \<times> mouse_event list) list \<Rightarrow> 'a app_state_scheme \<Rightarrow> 'a app_state_scheme" where
  "drags_App [] s = s"
| "drags_App (g # gs) s = drags_App gs (drag_App (fst g) (snd g) s)"

definition drawn_box :: "mouse_event \<Rightarrow> mouse_event \<Rightarrow> string \<Rightarrow> box" where
  "drawn_box d m l =
     \<lparr>x = offsetX d, y = offsetY d, width = offsetX m - offsetX d,
      height = offsetY m - offsetY d, label = l\<rparr>"

definition has_move :: "mouse_event \<times> mouse_event list \<Rightarrow> bool" where
  "has_move g = (snd g \<noteq> [])"

text \<open>Sample sessions, used to evaluate the handlers on concrete inputs.\<close>

definition sample_file :: image_file where
  "sample_file = \<lparr>file_name = ''screenshot.png'', file_dataURL = ''data:image/png;base64,iVBORw0KGgo=''\<rparr>"

definition at :: "int \<Rightarrow> int \<Rightarrow> mouse_event" where
  "at px py = \<lparr>offsetX = px, offsetY = py\<rparr>"

definition loaded :: history_state where
  "loaded = handleImageUpload (Some sample_file) App_history_init"

definition loaded_App :: app_state where
  "loaded_App = handleImageUpload (Some sample_file) App_init"

definition box1 :: box where
  "box1 = \<lparr>x = 10, y = 10, width = 100, height = 50, label = ''b''\<rparr>"

definition box2 :: box where
  "box2 = \<lparr>x = 50, y = 50, width = - 40, height = - 40, label = ''b''\<rparr>"

text \<open>Two boxes drawn, then two undos.\<close>

definition two_boxes :: history_state where
  "two_boxes = drag (at 50 50) [at 30 20, at 10 10] (drag (at 10 10) [at 110 60] loaded)"

definition two_undos :: history_state where
  "two_undos = handleUndo (handleUndo two_boxes)"

text \<open>One box drawn, then a second drag under way: pressed at (20,20), moved to (30,40).\<close>

definition dragging :: history_state where
  "dragging =
     handleMouseMove (at 30 40) (handleMouseDown (at 20 20) (drag (at 10 10) [at 110 60] loaded))"

definition box3 :: box where
  "box3 = \<lparr>x = 20, y = 20, width = 10, height = 20, label = ''b''\<rparr>"

text \<open>Three drags; the last one moves, but not away from where it was pressed.\<close>

definition three_drags :: "(mouse_event \<times> mouse_event list) list" where
  "three_drags =
     [(at 10 10, [at 110 60]), (at 50 50, [at 30 20, at 10 10]), (at 7 7, [at 7 7])]"

text \<open>
  Image loaded, the option \<open>Button\<close> selected, one drag from (10,10) to (110,60).
\<close>

definition scenario_A :: history_state where
  "scenario_A = drag (at 10 10) [at 110 60] (handleLabelChange ''b'' loaded)"

definition scenario_A_App :: app_state where
  "scenario_A_App = drag_App (at 10 10) [at 110 60] (handleLabelChange ''b'' loaded_App)"

text \<open>
  Idle states that still hold a draft box. No run of the handlers from the initial state
  ends in one; they are values of the state type on which the test for drawing in the
  release handlers decides.
\<close>

definition idle_with_draft :: history_state where
  "idle_with_draft = dragging\<lparr>isDrawing := False\<rparr>"

definition idle_with_draft_App :: app_state where
  "idle_with_draft_App =
     (handleMouseMove (at 30 40) (handleMouseDown (at 20 20) loaded_App))\<lparr>isDrawing := False\<rparr>"

text \<open>A pointer press on the loaded image, not yet released and not moved.\<close>

definition pressed :: history_state where
  "pressed = handleMouseDown (at 5 5) loaded"

definition pressed_App :: app_state where
  "pressed_App = handleMouseDown (at 5 5) loaded_App"

section \<open>Properties\<close>

text \<open>
  Each handler is applied to the state the previous one produced: React renders again
  after an event, and the handlers of the new render close over the new cells.
\<close>

lemmas handler_defs = handleImageUpload_def handleMouseDown_def handleMouseMove_def
  handleLabelChange_def handleMouseUp_def handleMouseUp_App_def handleUndo_def handleRedo_def

lemmas sample_defs = loaded_def loaded_App_def App_init_def App_history_init_def
  sample_file_def at_def truthy_def drag_def drag_App_def two_boxes_def two_undos_def
  pressed_def pressed_App_def box1_def box2_def box3_def dragging_def

subsection \<open>What a drag leaves behind\<close>

text \<open>While drawing, a run of moves leaves the box of the last move.\<close>

lemma fold_handleMouseMove:
  "isDrawing s \<Longrightarrow> ms \<noteq> [] \<Longrightarrow>
   fold handleMouseMove ms s =
     s\<lparr>currentBox := Some \<lparr>x = x (startPos s), y = y (startPos s),
          width = offsetX (last ms) - x (startPos s),
          height = offsetY (last ms) - y (startPos s), label = currentLabel s\<rparr>\<rparr>"
proof (induction ms arbitrary: s)
  case Nil
  then show ?case by simp
next
  case (Cons m ms)
  show ?case
  proof (cases "ms = []")
    case True
    with Cons.prems show ?thesis by (simp add: handleMouseMove_def)
  next
    case False
    have d: "isDrawing (handleMouseMove m s)"
      using Cons.prems by (simp add: handleMouseMove_def)
    show ?thesis
      using Cons.IH [OF d False] False Cons.prems
      by (simp add: handleMouseMove_def)
  qed
qed

lemma drag_commits:
  assumes "truthy (imageSrc s)" and "has_move g"
  shows "drag (fst g) (snd g) s =
     s\<lparr>startPos := \<lparr>x = offsetX (fst g), y = offsetY (fst g)\<rparr>,
       annotations := annotations s @ [drawn_box (fst g) (last (snd g)) (currentLabel s)],
       undoStack := undoStack s @ [annotations s],
       redoStack := [], currentBox := None, isDrawing := False\<rparr>"
proof -
  have d: "isDrawing (handleMouseDown (fst g) s)"
    using assms(1) by (simp add: handleMouseDown_def)
  show ?thesis
    using assms fold_handleMouseMove [OF d, of "snd g"]
    by (simp add: drag_def has_move_def handleMouseDown_def handleMouseUp_def drawn_box_def)
qed

lemma drag_App_commits:
  assumes "truthy (imageSrc s)" and "has_move g"
  shows "drag_App (fst g) (snd g) s =
     s\<lparr>startPos := \<lparr>x = offsetX (fst g), y = offsetY (fst g)\<rparr>,
       annotations := annotations s @ [drawn_box (fst g) (last (snd g)) (currentLabel s)],
       currentBox := None, isDrawing := False\<rparr>"
proof -
  have d: "isDrawing (handleMouseDown (fst g) s)"
    using assms(1) by (simp add: handleMouseDown_def)
  show ?thesis
    using assms fold_handleMouseMove [OF d, of "snd g"]
    by (simp add: drag_App_def has_move_def handleMouseDown_def handleMouseUp_App_def
        drawn_box_def)
qed

lemma drags_annotations:
  "truthy (imageSrc s) \<Longrightarrow> list_all has_move gs \<Longrightarrow>
   annotations (drags gs s) =
     annotations s @ map (\<lambda>g. drawn_box (fst g) (last (snd g)) (currentLabel s)) gs"
proof (induction gs arbitrary: s)
  case Nil
  then show ?case by simp
next
  case (Cons g gs)
  from Cons.prems have g: "has_move g" and gs: "list_all has_move gs" by simp_all
  note step = drag_commits [OF Cons.prems(1) g]
  have img: "truthy (imageSrc (drag (fst g) (snd g) s))"
    using Cons.prems(1) by (simp add: step)
  show ?case
    using Cons.IH [OF img gs] by (simp add: step)
qed

lemma drags_App_annotations:
  "truthy (imageSrc s) \<Longrightarrow> list_all has_move gs \<Longrightarrow>
   annotations (drags_App gs s) =
     annotations s @ map (\<lambda>g. drawn_box (fst g) (last (snd g)) (currentLabel s)) gs"
proof (induction gs arbitrary: s)
  case Nil
  then show ?case by simp
next
  case (Cons g gs)
  from Cons.prems have g: "has_move g" and gs: "list_all has_move gs" by simp_all
  note step = drag_App_commits [OF Cons.prems(1) g]
  have img: "truthy (imageSrc (drag_App (fst g) (snd g) s))"
    using Cons.prems(1) by (simp add: step)
  show ?case
    using Cons.IH [OF img gs] by (simp add: step)
qed

text \<open>The sample state \<open>dragging\<close>, field by field.\<close>

lemma dragging_fields:
  "isDrawing dragging" "currentBox dragging = Some box3" "annotations dragging = [box1]"
  "undoStack dragging = [[]]" "redoStack dragging = []"
  by (simp_all add: handler_defs sample_defs)

subsection \<open>Redo order\<close>

text \<open>
  \<open>handleUndo\<close> puts the list it replaces at the front of \<open>redoStack\<close>, so the entry queued by
  the earliest pending undo is the last one. After two boxes and two undos the stack holds
  \<open>[box1]\<close> (queued second) before \<open>[box1, box2]\<close> (queued first), and \<open>handleRedo\<close> reinstates
  \<open>[box1]\<close>: the reading of C1 under which redo takes the oldest queued snapshot fails.
\<close>

theorem redo_fifo_counterexample:
  "redoStack (handleUndo two_boxes) = [[box1, box2]]
   \<and> redoStack two_undos = [[box1], [box1, box2]]
   \<and> annotations (handleRedo two_undos) = [box1]
   \<and> \<not> (annotations (handleRedo two_undos) = last (redoStack two_undos))"
  by (simp add: handler_defs sample_defs)

text \<open>
  C1, amended: for a non-empty \<open>redoStack\<close>, \<open>handleRedo\<close> removes and reinstates the snapshot
  at the front, pushes the current list onto \<open>undoStack\<close> and makes the snapshot the list.
  The front is where \<open>handleUndo\<close> queues, so the snapshot is the one of the latest pending
  undo (last in, first out, as on the undo side), and a redo right after an undo gives back
  the whole state.
\<close>

theorem redo_reinstates_latest_undo:
  "(redoStack s \<noteq> [] \<longrightarrow>
      annotations (handleRedo s) = hd (redoStack s)
      \<and> redoStack (handleRedo s) = tl (redoStack s)
      \<and> undoStack (handleRedo s) = undoStack s @ [annotations s])
   \<and> (undoStack s \<noteq> [] \<longrightarrow>
      redoStack (handleUndo s) = annotations s # redoStack s
      \<and> handleRedo (handleUndo s) = s)"
  by (simp add: handleUndo_def handleRedo_def)

theorem redo_reinstates_latest_undo_witness:
  "redoStack two_undos \<noteq> [] \<and> undoStack two_boxes \<noteq> []
   \<and> annotations (handleRedo two_undos) = [box1]
   \<and> redoStack (handleRedo two_undos) = [[box1, box2]]
   \<and> undoStack (handleRedo two_undos) = [[]]
   \<and> redoStack (handleUndo two_boxes) = [[box1, box2]]
   \<and> handleRedo (handleUndo two_boxes) = two_boxes"
proof -
  have r: "redoStack two_undos = [[box1], [box1, box2]]"
    by (simp add: handler_defs sample_defs)
  have u: "undoStack two_boxes = [[], [box1]]"
    by (simp add: handler_defs sample_defs)
  have a: "annotations two_boxes = [box1, box2]" "annotations two_undos = []"
    "redoStack two_boxes = []" "undoStack two_undos = []"
    by (simp_all add: handler_defs sample_defs)
  show ?thesis
    using redo_reinstates_latest_undo [of two_undos] redo_reinstates_latest_undo [of two_boxes]
    by (simp add: r u a)
qed

subsection \<open>Pointer release without a draft box\<close>

text \<open>
  A press on the loaded image that is released without any move: the state is drawing and
  holds no draft box. The release leaves the list as it is, in both variants, so the part
  of C2 that has a zero-size box committed fails.
\<close>

theorem click_commits_box_counterexample:
  "isDrawing pressed \<and> currentBox pressed = None
   \<and> annotations (handleMouseUp pressed) = annotations pressed
   \<and> \<not> (annotations (handleMouseUp pressed) =
          annotations pressed @ [\<lparr>x = 5, y = 5, width = 0, height = 0, label = ''b''\<rparr>])
   \<and> \<not> (length (annotations (handleMouseUp pressed)) = length (annotations pressed) + 1)
   \<and> isDrawing pressed_App \<and> currentBox pressed_App = None
   \<and> \<not> (length (annotations (handleMouseUp_App pressed_App)) =
          length (annotations pressed_App) + 1)"
  by (simp add: handler_defs sample_defs)

text \<open>
  C2, amended: a pointer release always ends in the idle state. When no draft box exists
  it changes nothing else, so nothing is committed and (in the variant with history) both
  stacks stay as they are; in particular a press and release with no draft box before it
  and no move between them leaves the list unchanged. When the state is not drawing the
  release changes nothing at all, draft box or not. A box is committed exactly when the
  state is drawing and a draft box exists: then that box is appended and the draft box
  cleared.
\<close>

theorem mouseUp_without_draft:
  "\<not> isDrawing (handleMouseUp s)
   \<and> \<not> isDrawing (handleMouseUp_App a)
   \<and> (currentBox s = None \<longrightarrow>
        handleMouseUp s = s\<lparr>isDrawing := False\<rparr>
        \<and> annotations (handleMouseUp (handleMouseDown e s)) = annotations s)
   \<and> (currentBox a = None \<longrightarrow>
        handleMouseUp_App a = a\<lparr>isDrawing := False\<rparr>
        \<and> annotations (handleMouseUp_App (handleMouseDown e a)) = annotations a)
   \<and> (\<not> isDrawing s \<longrightarrow> handleMouseUp s = s)
   \<and> (\<not> isDrawing a \<longrightarrow> handleMouseUp_App a = a)
   \<and> (isDrawing s \<and> currentBox s = Some b \<longrightarrow>
        handleMouseUp s =
          s\<lparr>annotations := annotations s @ [b], undoStack := undoStack s @ [annotations s],
            redoStack := [], currentBox := None, isDrawing := False\<rparr>)
   \<and> (isDrawing a \<and> currentBox a = Some b \<longrightarrow>
        handleMouseUp_App a =
          a\<lparr>annotations := annotations a @ [b], currentBox := None, isDrawing := False\<rparr>)"
  by (simp add: handleMouseUp_def handleMouseUp_App_def handleMouseDown_def split: option.split)

theorem mouseUp_without_draft_witness:
  "currentBox pressed = None \<and> currentBox pressed_App = None
   \<and> \<not> isDrawing (handleMouseUp pressed)
   \<and> \<not> isDrawing (handleMouseUp_App pressed_App)
   \<and> handleMouseUp pressed = pressed\<lparr>isDrawing := False\<rparr>
   \<and> handleMouseUp_App pressed_App = pressed_App\<lparr>isDrawing := False\<rparr>
   \<and> annotations (handleMouseUp pressed) = []
   \<and> annotations (handleMouseUp (handleMouseDown (at 9 9) pressed)) = []
   \<and> annotations (handleMouseUp_App (handleMouseDown (at 9 9) pressed_App)) = []
   \<and> \<not> isDrawing idle_with_draft \<and> currentBox idle_with_draft = Some box3
   \<and> handleMouseUp idle_with_draft = idle_with_draft
   \<and> annotations (handleMouseUp idle_with_draft) = [box1]
   \<and> \<not> isDrawing idle_with_draft_App \<and> currentBox idle_with_draft_App = Some box3
   \<and> handleMouseUp_App idle_with_draft_App = idle_with_draft_App
   \<and> annotations (handleMouseUp_App idle_with_draft_App) = []
   \<and> isDrawing dragging \<and> currentBox dragging = Some box3
   \<and> annotations (handleMouseUp dragging) = [box1, box3]
   \<and> currentBox (handleMouseUp dragging) = None
   \<and> undoStack (handleMouseUp dragging) = [[], [box1]]"
proof -
  have n: "currentBox pressed = None" "currentBox pressed_App = None"
    "annotations pressed = []" "annotations pressed_App = []"
    by (simp_all add: handler_defs sample_defs)
  have i: "\<not> isDrawing idle_with_draft" "currentBox idle_with_draft = Some box3"
    "annotations idle_with_draft = [box1]"
    by (simp_all add: idle_with_draft_def dragging_fields)
  have j: "\<not> isDrawing idle_with_draft_App" "currentBox idle_with_draft_App = Some box3"
    "annotations idle_with_draft_App = []"
    by (simp_all add: idle_with_draft_App_def handler_defs sample_defs)
  have none: "\<not> isDrawing (handleMouseUp pressed)
      \<and> \<not> isDrawing (handleMouseUp_App pressed_App)
      \<and> handleMouseUp pressed = pressed\<lparr>isDrawing := False\<rparr>
      \<and> handleMouseUp_App pressed_App = pressed_App\<lparr>isDrawing := False\<rparr>
      \<and> annotations (handleMouseUp (handleMouseDown (at 9 9) pressed)) = annotations pressed
      \<and> annotations (handleMouseUp_App (handleMouseDown (at 9 9) pressed_App)) =
          annotations pressed_App"
    using mouseUp_without_draft [of pressed pressed_App "at 9 9" box3] n(1) n(2) by blast
  have idle: "handleMouseUp idle_with_draft = idle_with_draft
      \<and> handleMouseUp_App idle_with_draft_App = idle_with_draft_App"
    using mouseUp_without_draft [of idle_with_draft idle_with_draft_App "at 9 9" box3]
      i(1) j(1) by blast
  have commit: "handleMouseUp dragging =
      dragging\<lparr>annotations := annotations dragging @ [box3],
        undoStack := undoStack dragging @ [annotations dragging],
        redoStack := [], currentBox := None, isDrawing := False\<rparr>"
    using mouseUp_without_draft [of dragging pressed_App "at 9 9" box3]
      dragging_fields(1) dragging_fields(2) by blast
  show ?thesis
    by (simp add: none idle commit n i j dragging_fields)
qed

subsection \<open>Commit, undo, redo\<close>

text \<open>
  C3: in every state in which a pointer release commits a box \<open>b\<close> (drawing, with draft box
  \<open>b\<close>), the commit gives the list with \<open>b\<close> appended, an undo after it gives the list from
  before the commit, and a redo after that gives the list with \<open>b\<close> appended again.
\<close>

theorem commit_undo_redo:
  "isDrawing s \<Longrightarrow> currentBox s = Some b \<Longrightarrow>
   annotations (handleMouseUp s) = annotations s @ [b]
   \<and> annotations (handleUndo (handleMouseUp s)) = annotations s
   \<and> annotations (handleRedo (handleUndo (handleMouseUp s))) = annotations s @ [b]"
  by (simp add: handleMouseUp_def handleUndo_def handleRedo_def)

theorem commit_undo_redo_witness:
  "isDrawing dragging \<and> currentBox dragging = Some box3
   \<and> annotations (handleMouseUp dragging) = [box1, box3]
   \<and> annotations (handleUndo (handleMouseUp dragging)) = [box1]
   \<and> annotations (handleRedo (handleUndo (handleMouseUp dragging))) = [box1, box3]"
  using commit_undo_redo [OF dragging_fields(1) dragging_fields(2)]
  by (simp add: dragging_fields)

text \<open>
  C4: a commit appends the list from before it to \<open>undoStack\<close> and empties \<open>redoStack\<close>, so a
  redo after a commit changes nothing; this holds as well when an undo came before the
  commit and had queued a snapshot for redo.
\<close>

theorem commit_records_history:
  "isDrawing s \<Longrightarrow> currentBox s = Some b \<Longrightarrow>
   undoStack (handleMouseUp s) = undoStack s @ [annotations s]
   \<and> redoStack (handleMouseUp s) = []
   \<and> annotations (handleMouseUp s) = annotations s @ [b]
   \<and> handleRedo (handleMouseUp s) = handleMouseUp s
   \<and> redoStack (handleMouseUp (handleUndo s)) = []
   \<and> handleRedo (handleMouseUp (handleUndo s)) = handleMouseUp (handleUndo s)"
  by (simp add: handleMouseUp_def handleUndo_def handleRedo_def)

theorem commit_records_history_witness:
  "isDrawing dragging \<and> currentBox dragging = Some box3
   \<and> undoStack (handleMouseUp dragging) = [[], [box1]]
   \<and> redoStack (handleMouseUp dragging) = []
   \<and> handleRedo (handleMouseUp dragging) = handleMouseUp dragging
   \<and> redoStack (handleUndo dragging) = [[box1]]
   \<and> annotations (handleMouseUp (handleUndo dragging)) = [box3]
   \<and> redoStack (handleMouseUp (handleUndo dragging)) = []
   \<and> handleRedo (handleMouseUp (handleUndo dragging)) = handleMouseUp (handleUndo dragging)"
proof -
  have u: "redoStack (handleUndo dragging) = [[box1]]"
    "annotations (handleMouseUp (handleUndo dragging)) = [box3]"
    by (simp_all add: handleUndo_def handleMouseUp_def dragging_fields)
  show ?thesis
    using commit_records_history [OF dragging_fields(1) dragging_fields(2)]
    by (simp add: dragging_fields u)
qed

text \<open>
  C5: a commit puts the draft box, whatever it is, at the end of the list and keeps the
  elements before it, in both variants. Hence completed drags on a loaded image, each with
  at least one move, append their boxes in order, and after \<open>N\<close> of them from the start of a
  session the list has \<open>N\<close> elements.
\<close>

theorem commit_appends:
  "(isDrawing s \<and> currentBox s = Some b \<longrightarrow>
      annotations (handleMouseUp s) = annotations s @ [b])
   \<and> (isDrawing a \<and> currentBox a = Some b \<longrightarrow>
      annotations (handleMouseUp_App a) = annotations a @ [b])
   \<and> (truthy (imageSrc s) \<and> list_all has_move gs \<longrightarrow>
      annotations (drags gs s) =
        annotations s @ map (\<lambda>g. drawn_box (fst g) (last (snd g)) (currentLabel s)) gs)
   \<and> (truthy (imageSrc a) \<and> list_all has_move gs \<longrightarrow>
      annotations (drags_App gs a) =
        annotations a @ map (\<lambda>g. drawn_box (fst g) (last (snd g)) (currentLabel a)) gs)
   \<and> (file_dataURL fl \<noteq> [] \<and> list_all has_move gs \<longrightarrow>
      length (annotations (drags gs (handleImageUpload (Some fl) App_history_init))) = length gs
      \<and> length (annotations (drags_App gs (handleImageUpload (Some fl) App_init))) = length gs)"
proof -
  have up: "isDrawing s \<and> currentBox s = Some b \<longrightarrow>
      annotations (handleMouseUp s) = annotations s @ [b]"
    by (simp add: handleMouseUp_def)
  have up_App: "isDrawing a \<and> currentBox a = Some b \<longrightarrow>
      annotations (handleMouseUp_App a) = annotations a @ [b]"
    by (simp add: handleMouseUp_App_def)
  have n: "length (annotations (drags gs (handleImageUpload (Some fl) App_history_init))) =
      length gs"
    if "file_dataURL fl \<noteq> []" "list_all has_move gs"
  proof -
    have "truthy (imageSrc (handleImageUpload (Some fl) App_history_init))"
      using that(1) by (simp add: handleImageUpload_def truthy_def)
    from drags_annotations [OF this that(2)] show ?thesis
      by (simp add: handleImageUpload_def App_history_init_def)
  qed
  have n_App: "length (annotations (drags_App gs (handleImageUpload (Some fl) App_init))) =
      length gs"
    if "file_dataURL fl \<noteq> []" "list_all has_move gs"
  proof -
    have "truthy (imageSrc (handleImageUpload (Some fl) App_init))"
      using that(1) by (simp add: handleImageUpload_def truthy_def)
    from drags_App_annotations [OF this that(2)] show ?thesis
      by (simp add: handleImageUpload_def App_init_def)
  qed
  show ?thesis
    using up up_App n n_App drags_annotations [of s gs] drags_App_annotations [of a gs]
    by blast
qed

theorem commit_appends_witness:
  "isDrawing dragging \<and> currentBox dragging = Some box3
   \<and> annotations (handleMouseUp dragging) = [box1, box3]
   \<and> truthy (imageSrc loaded) \<and> truthy (imageSrc loaded_App)
   \<and> file_dataURL sample_file \<noteq> [] \<and> list_all has_move three_drags
   \<and> annotations (drags three_drags loaded) =
        [box1, box2, \<lparr>x = 7, y = 7, width = 0, height = 0, label = ''b''\<rparr>]
   \<and> annotations (drags_App three_drags loaded_App) =
        [box1, box2, \<lparr>x = 7, y = 7, width = 0, height = 0, label = ''b''\<rparr>]
   \<and> length (annotations (drags three_drags loaded)) = 3
   \<and> length (annotations (drags_App three_drags loaded_App)) = 3"
proof -
  have t: "truthy (imageSrc loaded)" "truthy (imageSrc loaded_App)"
    "file_dataURL sample_file \<noteq> []" "list_all has_move three_drags"
    "annotations loaded = []" "annotations loaded_App = []"
    "currentLabel loaded = ''b''" "currentLabel loaded_App = ''b''"
    by (simp_all add: three_drags_def has_move_def handler_defs sample_defs)
  have m: "map (\<lambda>g. drawn_box (fst g) (last (snd g)) ''b'') three_drags =
      [box1, box2, \<lparr>x = 7, y = 7, width = 0, height = 0, label = ''b''\<rparr>]"
    by (simp add: three_drags_def drawn_box_def at_def box1_def box2_def)
  show ?thesis
    using commit_appends [of dragging box3 dragging three_drags sample_file]
      commit_appends [of loaded box3 loaded_App three_drags sample_file]
    by (simp add: dragging_fields t m)
qed

subsection \<open>Export\<close>

text \<open>The object exported for a box determines the box, and so for lists of boxes.\<close>

lemma box_json_eq: "(box_json b = box_json c) = (b = c)"
  by (cases b, cases c) (auto simp: box_json_def)

lemma map_box_json_eq: "(map box_json bs = map box_json cs) = (bs = cs)"
  by (simp add: inj_map_eq_map inj_on_def box_json_eq)

text \<open>
  C6: for every list, the exported document is the object with \<open>filename\<close> the literal
  \<open>annotated_image.jpg\<close> and \<open>annotations\<close> the list: one object per box, in the order of
  the list, with the fields \<open>x\<close>, \<open>y\<close>, \<open>width\<close>, \<open>height\<close>, \<open>label\<close> of the box as they are
  stored, so that two states export the same document exactly when their lists are equal.
  The document does not depend on the image cell or on the file uploaded. After loading an
  image and one drag from (10,10) to (110,60) under the option \<open>Button\<close>, whose value is
  \<open>b\<close>, it is the document of the scenario, in both variants; a box drawn from (50,50) to
  (10,10) is exported with its negative width and height.
\<close>

theorem export_document:
  "handleDownload s =
     (''annotations.json'',
      JObject [(''filename'', JString ''annotated_image.jpg''),
               (''annotations'',
                JArray (map (\<lambda>b. JObject [(''x'', JNumber (x b)), (''y'', JNumber (y b)),
                    (''width'', JNumber (width b)), (''height'', JNumber (height b)),
                    (''label'', JString (label b))]) (annotations s)))])
   \<and> handleDownload s =
     (''annotations.json'',
      JObject [(''filename'', JString ''annotated_image.jpg''),
               (''annotations'', JArray (map box_json (annotations s)))])
   \<and> (handleDownload s = handleDownload t) = (annotations s = annotations t)
   \<and> handleDownload (handleImageUpload f s) = handleDownload s
   \<and> handleDownload (s\<lparr>imageSrc := src\<rparr>) = handleDownload s
   \<and> map_of label_options ''Button'' = Some ''b''
   \<and> snd (handleDownload scenario_A) =
       JObject [(''filename'', JString ''annotated_image.jpg''),
                (''annotations'',
                 JArray [JObject [(''x'', JNumber 10), (''y'', JNumber 10),
                   (''width'', JNumber 100), (''height'', JNumber 50),
                   (''label'', JString ''b'')]])]
   \<and> snd (handleDownload scenario_A_App) = snd (handleDownload scenario_A)
   \<and> snd (handleDownload two_boxes) =
       JObject [(''filename'', JString ''annotated_image.jpg''),
                (''annotations'',
                 JArray [JObject [(''x'', JNumber 10), (''y'', JNumber 10),
                   (''width'', JNumber 100), (''height'', JNumber 50),
                   (''label'', JString ''b'')],
                  JObject [(''x'', JNumber 50), (''y'', JNumber 50),
                   (''width'', JNumber (- 40)), (''height'', JNumber (- 40)),
                   (''label'', JString ''b'')]])]"
proof -
  have 0: "handleDownload s =
     (''annotations.json'',
      JObject [(''filename'', JString ''annotated_image.jpg''),
               (''annotations'',
                JArray (map (\<lambda>b. JObject [(''x'', JNumber (x b)), (''y'', JNumber (y b)),
                    (''width'', JNumber (width b)), (''height'', JNumber (height b)),
                    (''label'', JString (label b))]) (annotations s)))])"
    by (simp add: handleDownload_def annotationData_def box_json_def)
  have 1: "handleDownload s =
     (''annotations.json'',
      JObject [(''filename'', JString ''annotated_image.jpg''),
               (''annotations'', JArray (map box_json (annotations s)))])"
    by (simp add: handleDownload_def annotationData_def)
  have inj: "(handleDownload s = handleDownload t) = (annotations s = annotations t)"
    by (simp add: handleDownload_def annotationData_def map_box_json_eq)
  have 2: "handleDownload (handleImageUpload f s) = handleDownload s"
    by (simp add: handleDownload_def annotationData_def handleImageUpload_def
        split: option.split)
  have 3: "handleDownload (s\<lparr>imageSrc := src\<rparr>) = handleDownload s"
    by (simp add: handleDownload_def annotationData_def)
  have 4: "map_of label_options ''Button'' = Some ''b''"
    by (simp add: label_options_def)
  have 5: "annotations scenario_A = [box1]" "annotations scenario_A_App = [box1]"
    "annotations two_boxes = [box1, box2]"
    by (simp_all add: scenario_A_def scenario_A_App_def handler_defs sample_defs)
  have 6: "snd (handleDownload scenario_A) =
       JObject [(''filename'', JString ''annotated_image.jpg''),
                (''annotations'',
                 JArray [JObject [(''x'', JNumber 10), (''y'', JNumber 10),
                   (''width'', JNumber 100), (''height'', JNumber 50),
                   (''label'', JString ''b'')]])]"
    by (simp add: handleDownload_def annotationData_def 5 box_json_def box1_def)
  have 7: "snd (handleDownload scenario_A_App) = snd (handleDownload scenario_A)"
    by (simp add: handleDownload_def annotationData_def 5)
  have 8: "snd (handleDownload two_boxes) =
       JObject [(''filename'', JString ''annotated_image.jpg''),
                (''annotations'',
                 JArray [JObject [(''x'', JNumber 10), (''y'', JNumber 10),
                   (''width'', JNumber 100), (''height'', JNumber 50),
                   (''label'', JString ''b'')],
                  JObject [(''x'', JNumber 50), (''y'', JNumber 50),
                   (''width'', JNumber (- 40)), (''height'', JNumber (- 40)),
                   (''label'', JString ''b'')]])]"
    by (simp add: handleDownload_def annotationData_def 5 box_json_def box1_def box2_def)
  show ?thesis
    using 0 1 inj 2 3 4 6 7 8 by blast
qed

subsection \<open>Gating and frame properties\<close>

text \<open>
  C7: with no image loaded (\<open>imageSrc\<close> falsy), a pointer press changes nothing, in either
  variant: the state stays as it is, so it does not start drawing, records no start
  position and leaves the draft box as it was.
\<close>

theorem mouseDown_without_image:
  "\<not> truthy (imageSrc s) \<Longrightarrow>
   handleMouseDown e s = s
   \<and> isDrawing (handleMouseDown e s) = isDrawing s
   \<and> startPos (handleMouseDown e s) = startPos s
   \<and> currentBox (handleMouseDown e s) = currentBox s"
  by (simp add: handleMouseDown_def)

theorem mouseDown_without_image_witness:
  "\<not> truthy (imageSrc App_history_init)
   \<and> handleMouseDown (at 5 5) App_history_init = App_history_init
   \<and> \<not> isDrawing (handleMouseDown (at 5 5) App_history_init)
   \<and> startPos (handleMouseDown (at 5 5) App_history_init) = \<lparr>x = 0, y = 0\<rparr>
   \<and> currentBox (handleMouseDown (at 5 5) App_history_init) = None"
proof -
  have t: "\<not> truthy (imageSrc App_history_init)"
    by (simp add: App_history_init_def truthy_def)
  show ?thesis
    using mouseDown_without_image [OF t, of "at 5 5"] t
    by (simp add: App_history_init_def)
qed

text \<open>
  C8: an image upload writes the image cell only. The list, the selected label, the drag
  cells and whatever extends the state are as before, and so are both history stacks in
  the variant that has them.
\<close>

theorem imageUpload_frame:
  "annotations (handleImageUpload f s) = annotations s
   \<and> currentLabel (handleImageUpload f s) = currentLabel s
   \<and> isDrawing (handleImageUpload f s) = isDrawing s
   \<and> startPos (handleImageUpload f s) = startPos s
   \<and> currentBox (handleImageUpload f s) = currentBox s
   \<and> app_state.more (handleImageUpload f s) = app_state.more s
   \<and> undoStack (handleImageUpload f h) = undoStack h
   \<and> redoStack (handleImageUpload f h) = redoStack h
   \<and> handleImageUpload (Some fl) s = s\<lparr>imageSrc := Some (file_dataURL fl)\<rparr>
   \<and> handleImageUpload None s = s"
  by (simp add: handleImageUpload_def split: option.split)

text \<open>
  C9: with an empty \<open>undoStack\<close>, undo returns the state it was given, through the button
  and through Ctrl+Z; with an empty \<open>redoStack\<close>, so does redo, through the button and
  through Ctrl+Y. The handlers have no error branch.
\<close>

theorem undo_redo_empty_noop:
  "(undoStack s = [] \<longrightarrow>
      handleUndo s = s \<and> handleKeyDown \<lparr>key = ''z'', ctrlKey = True\<rparr> s = s)
   \<and> (redoStack s = [] \<longrightarrow>
      handleRedo s = s \<and> handleKeyDown \<lparr>key = ''y'', ctrlKey = True\<rparr> s = s)"
  by (simp add: handleUndo_def handleRedo_def handleKeyDown_def)

theorem undo_redo_empty_noop_witness:
  "undoStack loaded = [] \<and> redoStack loaded = []
   \<and> handleUndo loaded = loaded \<and> handleRedo loaded = loaded
   \<and> handleKeyDown \<lparr>key = ''z'', ctrlKey = True\<rparr> loaded = loaded
   \<and> handleKeyDown \<lparr>key = ''y'', ctrlKey = True\<rparr> loaded = loaded"
proof -
  have e: "undoStack loaded = []" "redoStack loaded = []"
    by (simp_all add: handler_defs sample_defs)
  show ?thesis
    using undo_redo_empty_noop [of loaded] by (simp add: e)
qed

subsection \<open>The label of a committed box\<close>

text \<open>
  C10: when the label is changed after the last move of a drag and before the release,
  the list after the release is the one the release gives without the change: the box
  appended carries the label that was selected when the move was handled. This holds in
  both variants.
\<close>

theorem label_fixed_at_last_move:
  "(isDrawing s \<longrightarrow>
      annotations (handleMouseUp (handleLabelChange l (handleMouseMove e s))) =
        annotations (handleMouseUp (handleMouseMove e s))
      \<and> annotations (handleMouseUp (handleLabelChange l (handleMouseMove e s))) =
          annotations s @ [\<lparr>x = x (startPos s), y = y (startPos s),
             width = offsetX e - x (startPos s), height = offsetY e - y (startPos s),
             label = currentLabel s\<rparr>])
   \<and> (isDrawing a \<longrightarrow>
      annotations (handleMouseUp_App (handleLabelChange l (handleMouseMove e a))) =
        annotations (handleMouseUp_App (handleMouseMove e a))
      \<and> annotations (handleMouseUp_App (handleLabelChange l (handleMouseMove e a))) =
          annotations a @ [\<lparr>x = x (startPos a), y = y (startPos a),
             width = offsetX e - x (startPos a), height = offsetY e - y (startPos a),
             label = currentLabel a\<rparr>])"
  by (simp add: handler_defs)

theorem label_fixed_at_last_move_witness:
  "isDrawing pressed \<and> isDrawing pressed_App
   \<and> annotations (handleMouseUp (handleLabelChange ''t'' (handleMouseMove (at 25 35) pressed))) =
       [\<lparr>x = 5, y = 5, width = 20, height = 30, label = ''b''\<rparr>]
   \<and> annotations
        (handleMouseUp_App (handleLabelChange ''t'' (handleMouseMove (at 25 35) pressed_App))) =
       [\<lparr>x = 5, y = 5, width = 20, height = 30, label = ''b''\<rparr>]
   \<and> currentLabel (handleMouseUp (handleLabelChange ''t'' (handleMouseMove (at 25 35) pressed))) =
       ''t''"
proof -
  have p: "isDrawing pressed" "isDrawing pressed_App" "annotations pressed = []"
    "annotations pressed_App = []" "startPos pressed = \<lparr>x = 5, y = 5\<rparr>"
    "startPos pressed_App = \<lparr>x = 5, y = 5\<rparr>" "currentLabel pressed = ''b''"
    "currentLabel pressed_App = ''b''"
    by (simp_all add: handler_defs sample_defs)
  have l: "currentLabel
      (handleMouseUp (handleLabelChange ''t'' (handleMouseMove (at 25 35) pressed))) = ''t''"
    by (simp add: handler_defs sample_defs)
  have k: "annotations
      (handleMouseUp (handleLabelChange ''t'' (handleMouseMove (at 25 35) pressed))) =
      annotations pressed @ [\<lparr>x = x (startPos pressed), y = y (startPos pressed),
        width = offsetX (at 25 35) - x (startPos pressed),
        height = offsetY (at 25 35) - y (startPos pressed), label = currentLabel pressed\<rparr>]"
    using label_fixed_at_last_move [of pressed "''t''" "at 25 35" pressed_App] p(1) by blast
  have k_App: "annotations
      (handleMouseUp_App (handleLabelChange ''t'' (handleMouseMove (at 25 35) pressed_App))) =
      annotations pressed_App @ [\<lparr>x = x (startPos pressed_App), y = y (startPos pressed_App),
        width = offsetX (at 25 35) - x (startPos pressed_App),
        height = offsetY (at 25 35) - y (startPos pressed_App),
        label = currentLabel pressed_App\<rparr>]"
    using label_fixed_at_last_move [of pressed "''t''" "at 25 35" pressed_App] p(2) by blast
  show ?thesis
    by (simp add: k k_App p l) (simp add: at_def)
qed

end
